theory Spec2Isabelle
  imports Main "HOL-Library.FSet"
begin

section \<open>Peer manager of the node (network/impl/peer\_manager\_impl.cpp)\<close>

subsection \<open>Data model\<close>

text \<open>
  Peer identifiers, multiaddresses and points of the steady clock are opaque to the peer
  manager; it only compares them. They are natural numbers here. The clock arithmetic of
  the source (\<open>oldest_timepoint + peer_ttl < now\<close>) is on 64-bit tick counts that do not
  overflow in the life of a node, so it is unbounded here.
\<close>

type_synonym PeerId = nat
type_synonym Multiaddress = nat
type_synonym TimePoint = nat
type_synonym BlockInfo = "nat \<times> nat"

record PeerInfo =
  peer_id :: PeerId
  addresses :: "Multiaddress list"

text \<open>
  The announced chain state of a peer. The peer manager writes the field \<open>best_block\<close> and
  otherwise stores the value whole.
\<close>

record Status =
  roles :: nat
  best_block :: BlockInfo
  genesis_hash :: nat

definition default_Status :: Status where
  "default_Status = \<lparr>roles = 0, best_block = (0, 0), genesis_hash = 0\<rparr>"

record ActivePeerData =
  time :: TimePoint
  status :: Status

text \<open>
  Calls that the peer manager issues to its collaborators (stream engine, registry of sync
  clients, host, block announce protocol, Kademlia, identify, scheduler, event bus). Their
  effect lives outside the peer manager, so the model records each call, in order.
\<close>

datatype call =
    StreamEngineDel PeerId
  | StreamEngineAdd PeerId nat
  | SyncClientsRemove PeerId
  | UpsertAddresses PeerInfo
  | HostConnect PeerInfo
  | NewOutgoingStream PeerInfo
  | KademliaAddPeer PeerInfo bool
  | KademliaStart
  | IdentifyStart
  | OnIdentifyReceived
  | SubscribePeerAdded
  | UnsubscribePeerAdded
  | TimerCancel
  | SchedulerSchedule nat

text \<open>
  The members of \<open>PeerManagerImpl\<close> that its operations mutate.
  \<^item> \<open>active_peers\<close> is the hash map from peer to \<open>ActivePeerData\<close>, as the list of its
    entries in iteration order; a hash map holds one entry for a key.
  \<^item> \<open>connecting_peers\<close> and \<open>peers_in_queue\<close> are hash sets.
  \<^item> \<open>queue_to_connect\<close> is the deque. The source stores in it references to the elements
    of \<open>peers_in_queue\<close>; the model stores the peer identifiers the references denote.
  \<^item> \<open>calls\<close> is the trace of calls to the collaborators.
\<close>

record pm_state =
  active_peers :: "(PeerId \<times> ActivePeerData) list"
  connecting_peers :: "PeerId fset"
  queue_to_connect :: "PeerId list"
  peers_in_queue :: "PeerId fset"
  calls :: "call list"

definition initial_state :: pm_state where
  "initial_state = \<lparr>active_peers = [], connecting_peers = {||}, queue_to_connect = [],
     peers_in_queue = {||}, calls = []\<rparr>"

text \<open>The configuration and the values injected at construction.\<close>

record pm_config =
  isRunInDevMode :: bool
  targetPeerAmount :: nat
  softLimit :: nat
  hardLimit :: nat
  peerTtl :: nat
  aligningPeriod :: nat
  bootstrap_nodes :: "PeerInfo list"
  own_peer_id :: PeerId

text \<open>
  What the collaborators answer while one operation runs: liveness of the block announce
  stream, the addresses the host's peer repository returns, the result of the address
  repository's \<open>getAddresses\<close> (\<open>None\<close> for an error result) and of \<open>upsertAddresses\<close>,
  whether the host's connectedness is \<open>CAN_NOT_CONNECT\<close>, and the clock.
\<close>

record pm_env =
  isAlive :: "PeerId \<Rightarrow> bool"
  getPeerInfo :: "PeerId \<Rightarrow> Multiaddress list"
  getAddresses :: "PeerId \<Rightarrow> Multiaddress list option"
  upsertAddresses_ok :: "PeerInfo \<Rightarrow> bool"
  can_not_connect :: "PeerId \<Rightarrow> bool"
  now :: TimePoint

text \<open>
  Two ways an operation can leave defined behaviour: an iterator or node handle that
  denotes nothing is dereferenced, or a \<open>BOOST_ASSERT\<close> fails.
\<close>

datatype error = UndefinedBehaviour | AssertionFailed

subsection \<open>Container operations\<close>

text \<open>\<open>find\<close> on the hash map.\<close>

definition find_active :: "PeerId \<Rightarrow> pm_state \<Rightarrow> ActivePeerData option" where
  "find_active p s = map_of (active_peers s) p"

text \<open>\<open>erase(it)\<close> for the iterator that \<open>find\<close> returned.\<close>

primrec erase_entry :: "PeerId \<Rightarrow> (PeerId \<times> ActivePeerData) list \<Rightarrow> (PeerId \<times> ActivePeerData) list" where
  "erase_entry p [] = []"
| "erase_entry p (x # xs) = (if fst x = p then xs else x # erase_entry p xs)"

text \<open>Assignment through the iterator that \<open>find\<close> returned.\<close>

primrec modify_entry ::
  "PeerId \<Rightarrow> (ActivePeerData \<Rightarrow> ActivePeerData) \<Rightarrow> (PeerId \<times> ActivePeerData) list
    \<Rightarrow> (PeerId \<times> ActivePeerData) list" where
  "modify_entry p f [] = []"
| "modify_entry p f (x # xs) =
     (if fst x = p then (fst x, f (snd x)) # xs else x # modify_entry p f xs)"

text \<open>
  \<open>std::min_element\<close> with the comparison \<open>item1.second.time < item2.second.time\<close>: the
  first entry in iteration order that no later entry beats. On an empty range it returns
  the end iterator (\<open>None\<close>).
\<close>

primrec min_element_from ::
  "(PeerId \<times> ActivePeerData) \<Rightarrow> (PeerId \<times> ActivePeerData) list \<Rightarrow> (PeerId \<times> ActivePeerData)" where
  "min_element_from smallest [] = smallest"
| "min_element_from smallest (x # xs) =
     min_element_from (if time (snd x) < time (snd smallest) then x else smallest) xs"

definition min_element :: "(PeerId \<times> ActivePeerData) list \<Rightarrow> (PeerId \<times> ActivePeerData) option" where
  "min_element xs = (case xs of [] \<Rightarrow> None | x # rest \<Rightarrow> Some (min_element_from x rest))"

text \<open>
  \<open>BOOST_ASSERT(queue_to_connect_.size() == peers_in_queue_.size())\<close>. The model stops
  where the assertion fails, as a build with assertions does.
\<close>

definition assert_queue_sizes :: "pm_state \<Rightarrow> error + pm_state" where
  "assert_queue_sizes s =
     (if length (queue_to_connect s) = fcard (peers_in_queue s) then Inr s
      else Inl AssertionFailed)"

text \<open>
  The block that \<open>updatePeerStatus\<close> and the stream completion handler both carry: if the
  peer is in \<open>peers_in_queue\<close>, \<open>find_if\<close> looks for it in the deque and the position found
  is erased from the deque, then the peer from the set. Erasing the end iterator, when
  \<open>find_if\<close> finds nothing, is undefined.
\<close>

definition remove_from_queue :: "PeerId \<Rightarrow> pm_state \<Rightarrow> error + pm_state" where
  "remove_from_queue p s =
     (if p |\<in>| peers_in_queue s then
        (if p \<in> set (queue_to_connect s) then
           assert_queue_sizes
             (s\<lparr>queue_to_connect := remove1 p (queue_to_connect s),
                peers_in_queue := peers_in_queue s |-| {|p|}\<rparr>)
         else Inl UndefinedBehaviour)
      else Inr s)"

definition log_call :: "call \<Rightarrow> pm_state \<Rightarrow> pm_state" where
  "log_call c s = s\<lparr>calls := calls s @ [c]\<rparr>"

subsection \<open>Operations\<close>

definition prepare :: "pm_config \<Rightarrow> bool" where
  "prepare cfg =
     (if \<not> isRunInDevMode cfg \<and> bootstrap_nodes cfg = [] then False else True)"

definition activePeersNumber :: "pm_state \<Rightarrow> nat" where
  "activePeersNumber s = length (active_peers s)"

definition disconnectFromPeer :: "PeerId \<Rightarrow> pm_state \<Rightarrow> pm_state" where
  "disconnectFromPeer p s =
     log_call (SyncClientsRemove p)
       (case find_active p s of
          Some d \<Rightarrow> (log_call (StreamEngineDel p) s)\<lparr>active_peers := erase_entry p (active_peers s)\<rparr>
        | None \<Rightarrow> s)"

definition keepAlive :: "pm_env \<Rightarrow> PeerId \<Rightarrow> pm_state \<Rightarrow> pm_state" where
  "keepAlive env p s =
     (case find_active p s of
        Some d \<Rightarrow> s\<lparr>active_peers := modify_entry p (\<lambda>d. d\<lparr>time := now env\<rparr>) (active_peers s)\<rparr>
      | None \<Rightarrow> s)"

text \<open>\<open>updatePeerStatus(peer_id, status)\<close>, the overload taking a whole status.\<close>

definition updatePeerStatus :: "pm_env \<Rightarrow> PeerId \<Rightarrow> Status \<Rightarrow> pm_state \<Rightarrow> error + pm_state" where
  "updatePeerStatus env p st s =
     (case find_active p s of
        Some d \<Rightarrow>
          Inr (s\<lparr>active_peers :=
                 modify_entry p (\<lambda>d. d\<lparr>time := now env, status := st\<rparr>) (active_peers s)\<rparr>)
      | None \<Rightarrow>
          (case remove_from_queue p (s\<lparr>connecting_peers := connecting_peers s |-| {|p|}\<rparr>) of
             Inl e \<Rightarrow> Inl e
           | Inr s1 \<Rightarrow>
               Inr (s1\<lparr>active_peers :=
                      active_peers s1 @ [(p, \<lparr>time = now env, status = st\<rparr>)]\<rparr>)))"

text \<open>\<open>updatePeerStatus(peer_id, best_block)\<close>, the overload taking the best block only.\<close>

definition updatePeerStatus_best_block :: "pm_env \<Rightarrow> PeerId \<Rightarrow> BlockInfo \<Rightarrow> pm_state \<Rightarrow> pm_state" where
  "updatePeerStatus_best_block env p bb s =
     (case find_active p s of
        Some d \<Rightarrow>
          s\<lparr>active_peers :=
              modify_entry p (\<lambda>d. d\<lparr>time := now env, status := (status d)\<lparr>best_block := bb\<rparr>\<rparr>)
                (active_peers s)\<rparr>
      | None \<Rightarrow> s)"

definition getPeerStatus :: "PeerId \<Rightarrow> pm_state \<Rightarrow> Status option" where
  "getPeerStatus p s = (case find_active p s of None \<Rightarrow> None | Some d \<Rightarrow> Some (status d))"

definition processDiscoveredPeer :: "pm_config \<Rightarrow> PeerId \<Rightarrow> pm_state \<Rightarrow> error + pm_state" where
  "processDiscoveredPeer cfg p s =
     (if own_peer_id cfg = p then Inr s
      else if find_active p s \<noteq> None then Inr s
      else if p |\<in>| peers_in_queue s then Inr s
      else assert_queue_sizes
             (s\<lparr>peers_in_queue := finsert p (peers_in_queue s),
                queue_to_connect := queue_to_connect s @ [p]\<rparr>))"

text \<open>
  \<open>connectToPeer(peer_id)\<close>. The completion handler given to \<open>host_.connect\<close> runs later,
  on the event loop; it is \<open>connect_completed\<close> below.
\<close>

definition connectToPeer :: "pm_env \<Rightarrow> PeerId \<Rightarrow> pm_state \<Rightarrow> pm_state" where
  "connectToPeer env p s =
     (let peer_info = \<lparr>peer_id = p, addresses = getPeerInfo env p\<rparr>
      in if addresses peer_info = [] then s
         else if can_not_connect env p then s
         else log_call (HostConnect peer_info) s)"

text \<open>\<open>connectToPeer(peer_info)\<close>.\<close>

definition connectToPeer_info :: "pm_env \<Rightarrow> PeerInfo \<Rightarrow> pm_state \<Rightarrow> pm_state" where
  "connectToPeer_info env peer_info s =
     (let s1 = log_call (UpsertAddresses peer_info) s
      in if upsertAddresses_ok env peer_info then connectToPeer env (peer_id peer_info) s1
         else s1)"

text \<open>
  \<open>processFullyConnectedPeer\<close>. The completion handler given to \<open>newOutgoingStream\<close> runs
  later; it is \<open>stream_completed\<close> below.
\<close>

definition processFullyConnectedPeer :: "pm_env \<Rightarrow> pm_config \<Rightarrow> PeerId \<Rightarrow> pm_state \<Rightarrow> pm_state" where
  "processFullyConnectedPeer env cfg p s =
     (if own_peer_id cfg = p then s
      else
        (case getAddresses env p of
           None \<Rightarrow> s
         | Some addrs \<Rightarrow>
             (let peer_info = \<lparr>peer_id = p, addresses = addrs\<rparr>;
                  cur_active_peer = length (active_peers s);
                  s1 = (if cur_active_peer \<ge> hardLimit cfg
                        then s\<lparr>connecting_peers := connecting_peers s |-| {|p|}\<rparr>
                        else if \<not> isAlive env p then log_call (NewOutgoingStream peer_info) s
                        else s)
              in log_call (KademliaAddPeer peer_info False) s1)))"

text \<open>
  The completion handler of \<open>newOutgoingStream\<close> on the block announce protocol, for a
  peer manager that is still alive; \<open>ok\<close> says whether the stream result has a value.
\<close>

definition stream_completed :: "pm_env \<Rightarrow> PeerId \<Rightarrow> bool \<Rightarrow> pm_state \<Rightarrow> error + pm_state" where
  "stream_completed env p ok s =
     (let s1 = s\<lparr>connecting_peers := connecting_peers s |-| {|p|}\<rparr>
      in if \<not> ok then Inr (disconnectFromPeer p s1)
         else
           (case find_active p s1 of
              Some d \<Rightarrow> Inr s1
            | None \<Rightarrow>
                remove_from_queue p
                  (s1\<lparr>active_peers :=
                        active_peers s1 @ [(p, \<lparr>time = now env, status = default_Status\<rparr>)]\<rparr>)))"

text \<open>
  The completion handler of \<open>host_.connect\<close>, for a peer manager that is still alive. The
  result is an error, a connection whose remote peer is not known yet, or a connection
  with its remote peer.
\<close>

datatype connect_result = ConnectFailed | ConnectedUnidentified | Connected PeerId

definition connect_completed ::
  "pm_env \<Rightarrow> pm_config \<Rightarrow> PeerId \<Rightarrow> connect_result \<Rightarrow> pm_state \<Rightarrow> pm_state" where
  "connect_completed env cfg p res s =
     (let s1 = s\<lparr>connecting_peers := connecting_peers s |-| {|p|}\<rparr>
      in case res of
           ConnectFailed \<Rightarrow> s1
         | ConnectedUnidentified \<Rightarrow> s1
         | Connected remote_peer_id \<Rightarrow>
             (if remote_peer_id = p then processFullyConnectedPeer env cfg p s1 else s1))"

definition reserveStreams :: "PeerId \<Rightarrow> pm_state \<Rightarrow> pm_state" where
  "reserveStreams p s =
     log_call (StreamEngineAdd p 2) (log_call (StreamEngineAdd p 1) (log_call (StreamEngineAdd p 0) s))"

subsection \<open>Alignment\<close>

text \<open>
  The first loop of \<open>align\<close>: every entry of the active map is visited once (the iterator
  is advanced before the entry can be erased) and a peer whose block announce stream is
  not alive is disconnected.
\<close>

definition check_disconnected :: "pm_env \<Rightarrow> pm_state \<Rightarrow> pm_state" where
  "check_disconnected env s =
     foldl (\<lambda>st entry. if \<not> isAlive env (fst entry) then disconnectFromPeer (fst entry) st else st)
       s (active_peers s)"

text \<open>
  \<open>disconnectFromPeer\<close> for an argument that refers to the key stored in an entry of the
  active map, which is how the soft limit block of \<open>align\<close> calls it (the structured
  binding \<open>auto &[oldest_peer_id, data] = *it\<close> is a reference into the entry, and the
  parameter is a reference too). \<open>find\<close> returns that entry, \<open>erase(it)\<close> destroys it and
  the key with it, and \<open>sync_clients_->remove(peer_id)\<close> then reads the destroyed key: the
  behaviour is undefined. The liveness sweep and the stream completion handler hand over
  copies, which is \<open>disconnectFromPeer\<close> above. Were the key in no entry, nothing would be
  erased and the call would be as by value.
\<close>

definition disconnectFromPeer_ref :: "PeerId \<Rightarrow> pm_state \<Rightarrow> error + pm_state" where
  "disconnectFromPeer_ref p s =
     (case find_active p s of
        Some d \<Rightarrow> Inl UndefinedBehaviour
      | None \<Rightarrow> Inr (disconnectFromPeer p s))"

text \<open>The branch of \<open>align\<close> for a soft limit exceeded.\<close>

definition soft_limit_exceeded :: "pm_env \<Rightarrow> pm_config \<Rightarrow> pm_state \<Rightarrow> error + pm_state" where
  "soft_limit_exceeded env cfg s =
     (if length (active_peers s) > softLimit cfg then
        (case min_element (active_peers s) of
           None \<Rightarrow> Inl UndefinedBehaviour
         | Some oldest \<Rightarrow>
             (if length (active_peers s) > hardLimit cfg then disconnectFromPeer_ref (fst oldest) s
              else if time (snd oldest) + peerTtl cfg < now env
                then disconnectFromPeer_ref (fst oldest) s
              else Inr s))
      else Inr s)"

text \<open>
  The branch of \<open>align\<close> that reuses the bootstrap nodes. \<open>connecting_peers_.empty()\<close> has
  been tested before the loop.
\<close>

definition reuse_bootstrap_nodes :: "pm_env \<Rightarrow> pm_config \<Rightarrow> pm_state \<Rightarrow> pm_state" where
  "reuse_bootstrap_nodes env cfg s =
     foldl (\<lambda>st bootstrap_node.
              if own_peer_id cfg \<noteq> peer_id bootstrap_node
              then connectToPeer env (peer_id bootstrap_node)
                     (st\<lparr>connecting_peers := finsert (peer_id bootstrap_node) (connecting_peers st)\<rparr>)
              else st)
       s (bootstrap_nodes cfg)"

text \<open>
  The branch of \<open>align\<close> for too few active peers. \<open>extract\<close> of a key that the set does
  not hold gives an empty node handle, whose \<open>value()\<close> is undefined.
\<close>

definition not_enough_active_peers :: "pm_env \<Rightarrow> pm_config \<Rightarrow> pm_state \<Rightarrow> error + pm_state" where
  "not_enough_active_peers env cfg s =
     (if length (active_peers s) < targetPeerAmount cfg then
        (case queue_to_connect s of
           front # rest \<Rightarrow>
             (if front |\<in>| peers_in_queue s then
                (case assert_queue_sizes
                        (s\<lparr>peers_in_queue := peers_in_queue s |-| {|front|},
                           queue_to_connect := rest\<rparr>) of
                   Inl e \<Rightarrow> Inl e
                 | Inr s1 \<Rightarrow>
                     Inr (connectToPeer env front
                            (s1\<lparr>connecting_peers := finsert front (connecting_peers s1)\<rparr>)))
              else Inl UndefinedBehaviour)
         | [] \<Rightarrow>
             (if connecting_peers s = {||} then Inr (reuse_bootstrap_nodes env cfg s)
              else Inr s))
      else Inr s)"

definition align :: "pm_env \<Rightarrow> pm_config \<Rightarrow> pm_state \<Rightarrow> error + pm_state" where
  "align env cfg s =
     (case soft_limit_exceeded env cfg (check_disconnected env (log_call TimerCancel s)) of
        Inl e \<Rightarrow> Inl e
      | Inr s2 \<Rightarrow>
          (case not_enough_active_peers env cfg s2 of
             Inl e \<Rightarrow> Inl e
           | Inr s3 \<Rightarrow> Inr (log_call (SchedulerSchedule (aligningPeriod cfg)) s3)))"

subsection \<open>Life cycle\<close>

text \<open>
  \<open>start\<close> returns the flag the source returns, with the state. The handlers it registers
  are \<open>processDiscoveredPeer\<close> and \<open>processFullyConnectedPeer\<close>.
\<close>

definition start :: "pm_env \<Rightarrow> pm_config \<Rightarrow> pm_state \<Rightarrow> error + (bool \<times> pm_state)" where
  "start env cfg s =
     (if isRunInDevMode cfg \<and> bootstrap_nodes cfg = [] then Inr (True, s)
      else
        (let s1 = log_call (KademliaAddPeer \<lparr>peer_id = own_peer_id cfg, addresses = getPeerInfo env (own_peer_id cfg)\<rparr> True) s;
             s2 = log_call IdentifyStart (log_call OnIdentifyReceived (log_call SubscribePeerAdded s1));
             s3 = foldl (\<lambda>st bootstrap_node. log_call (KademliaAddPeer bootstrap_node True) st)
                    s2 (bootstrap_nodes cfg);
             s4 = log_call KademliaStart s3
         in case align env cfg s4 of
              Inl e \<Rightarrow> Inl e
            | Inr s5 \<Rightarrow> Inr (True, s5)))"

definition stop :: "pm_state \<Rightarrow> pm_state" where
  "stop s = log_call UnsubscribePeerAdded s"

subsection \<open>Operations as events of the event loop\<close>

text \<open>
  Every mutation of the peer manager runs on one event loop. An event is one call of an
  operation or one completion handler, together with what the collaborators answer while
  it runs.
\<close>

datatype event =
    Start
  | Stop
  | Align
  | ProcessDiscoveredPeer PeerId
  | ProcessFullyConnectedPeer PeerId
  | ConnectToPeer PeerId
  | ConnectToPeerInfo PeerInfo
  | ConnectCompleted PeerId connect_result
  | StreamCompleted PeerId bool
  | KeepAlive PeerId
  | UpdatePeerStatus PeerId Status
  | UpdatePeerStatusBestBlock PeerId BlockInfo
  | ReserveStreams PeerId

fun step :: "pm_config \<Rightarrow> pm_env \<times> event \<Rightarrow> pm_state \<Rightarrow> error + pm_state" where
  "step cfg (env, Start) s = (case start env cfg s of Inl e \<Rightarrow> Inl e | Inr r \<Rightarrow> Inr (snd r))"
| "step cfg (env, Stop) s = Inr (stop s)"
| "step cfg (env, Align) s = align env cfg s"
| "step cfg (env, ProcessDiscoveredPeer p) s = processDiscoveredPeer cfg p s"
| "step cfg (env, ProcessFullyConnectedPeer p) s = Inr (processFullyConnectedPeer env cfg p s)"
| "step cfg (env, ConnectToPeer p) s = Inr (connectToPeer env p s)"
| "step cfg (env, ConnectToPeerInfo i) s = Inr (connectToPeer_info env i s)"
| "step cfg (env, ConnectCompleted p res) s = Inr (connect_completed env cfg p res s)"
| "step cfg (env, StreamCompleted p ok) s = stream_completed env p ok s"
| "step cfg (env, KeepAlive p) s = Inr (keepAlive env p s)"
| "step cfg (env, UpdatePeerStatus p st) s = updatePeerStatus env p st s"
| "step cfg (env, UpdatePeerStatusBestBlock p bb) s = Inr (updatePeerStatus_best_block env p bb s)"
| "step cfg (env, ReserveStreams p) s = Inr (reserveStreams p s)"

fun run :: "pm_config \<Rightarrow> (pm_env \<times> event) list \<Rightarrow> pm_state \<Rightarrow> error + pm_state" where
  "run cfg [] s = Inr s"
| "run cfg (ev # evs) s = (case step cfg ev s of Inl e \<Rightarrow> Inl e | Inr s1 \<Rightarrow> run cfg evs s1)"

subsection \<open>Consistency of the indices\<close>

text \<open>
  The deque and the set of queued peers hold the same peers, and as many: the condition
  that the assertions of the source check by size.
\<close>

definition queue_mirror :: "pm_state \<Rightarrow> bool" where
  "queue_mirror s =
     (fset (peers_in_queue s) = set (queue_to_connect s)
      \<and> length (queue_to_connect s) = fcard (peers_in_queue s))"

text \<open>No active peer is queued.\<close>

definition active_not_queued :: "pm_state \<Rightarrow> bool" where
  "active_not_queued s =
     list_all (\<lambda>entry. fst entry |\<notin>| peers_in_queue s) (active_peers s)"

subsection \<open>Alignments that evict\<close>

text \<open>
  An eviction is due for the entries that the liveness sweep has left: they are more than
  the soft limit, and either more than the hard limit or the oldest of them has been
  silent for longer than the ttl.
\<close>

definition eviction_due :: "pm_env \<Rightarrow> pm_config \<Rightarrow> (PeerId \<times> ActivePeerData) list \<Rightarrow> bool" where
  "eviction_due env cfg entries =
     (softLimit cfg < length entries
      \<and> (case min_element entries of
            None \<Rightarrow> True
          | Some oldest \<Rightarrow>
              hardLimit cfg < length entries \<or> time (snd oldest) + peerTtl cfg < now env))"

definition align_evicts :: "pm_env \<Rightarrow> pm_config \<Rightarrow> pm_state \<Rightarrow> bool" where
  "align_evicts env cfg s = eviction_due env cfg (active_peers (check_disconnected env s))"

text \<open>The event runs an alignment, and in it an eviction is due.\<close>

fun evicting :: "pm_config \<Rightarrow> pm_env \<times> event \<Rightarrow> pm_state \<Rightarrow> bool" where
  "evicting cfg (env, Align) s = align_evicts env cfg s"
| "evicting cfg (env, Start) s =
     (\<not> (isRunInDevMode cfg \<and> bootstrap_nodes cfg = []) \<and> align_evicts env cfg s)"
| "evicting cfg (env, ev) s = False"

text \<open>No event of the run, in the state in which it begins, is evicting.\<close>

fun eviction_free :: "pm_config \<Rightarrow> (pm_env \<times> event) list \<Rightarrow> pm_state \<Rightarrow> bool" where
  "eviction_free cfg [] s = True"
| "eviction_free cfg (ev # evs) s =
     (\<not> evicting cfg ev s
      \<and> (case step cfg ev s of Inl e \<Rightarrow> True | Inr s1 \<Rightarrow> eviction_free cfg evs s1))"

subsection \<open>Concrete inputs\<close>

text \<open>
  An environment in which every block announce stream is alive, every peer has the one
  address 1, nothing is unreachable and the clock reads 9; and the same environment with
  no address for any peer.
\<close>

definition env_live :: pm_env where
  "env_live = \<lparr>isAlive = (\<lambda>p. True), getPeerInfo = (\<lambda>p. [1]), getAddresses = (\<lambda>p. Some [1]),
     upsertAddresses_ok = (\<lambda>i. True), can_not_connect = (\<lambda>p. False), now = 9\<rparr>"

definition env_no_addresses :: pm_env where
  "env_no_addresses = \<lparr>isAlive = (\<lambda>p. True), getPeerInfo = (\<lambda>p. []), getAddresses = (\<lambda>p. None),
     upsertAddresses_ok = (\<lambda>i. True), can_not_connect = (\<lambda>p. False), now = 9\<rparr>"

text \<open>A node with identifier 0, no bootstrap nodes, not in dev mode, and all limits 1.\<close>

definition cfg_limit_one :: pm_config where
  "cfg_limit_one = \<lparr>isRunInDevMode = False, targetPeerAmount = 1, softLimit = 1, hardLimit = 1,
     peerTtl = 10, aligningPeriod = 5, bootstrap_nodes = [], own_peer_id = 0\<rparr>"

text \<open>Peer 1 active since time 5, peer 2 being dialled.\<close>

definition state_active_1 :: pm_state where
  "state_active_1 = \<lparr>active_peers = [(1, \<lparr>time = 5, status = default_Status\<rparr>)],
     connecting_peers = {|2|}, queue_to_connect = [], peers_in_queue = {||}, calls = []\<rparr>"


definition cfg_bootstrap_two :: pm_config where
  "cfg_bootstrap_two = \<lparr>isRunInDevMode = False, targetPeerAmount = 2, softLimit = 2, hardLimit = 2,
     peerTtl = 10, aligningPeriod = 5, bootstrap_nodes = [\<lparr>peer_id = 5, addresses = [1]\<rparr>],
     own_peer_id = 0\<rparr>"



definition env_no_streams :: pm_env where
  "env_no_streams = \<lparr>isAlive = (\<lambda>p. False), getPeerInfo = (\<lambda>p. [1]), getAddresses = (\<lambda>p. Some [1]),
     upsertAddresses_ok = (\<lambda>i. True), can_not_connect = (\<lambda>p. False), now = 9\<rparr>"



text \<open>Peer 7 is discovered, an alignment dials it, and it is discovered again.\<close>

definition events_discover_dial_discover :: "(pm_env \<times> event) list" where
  "events_discover_dial_discover =
     [(env_live, ProcessDiscoveredPeer 7), (env_live, Align), (env_live, ProcessDiscoveredPeer 7)]"

text \<open>
  The node starts and dials its bootstrap node 5; the connection is made, the block
  announce stream to peer 5 opens, and the next alignment runs.
\<close>

definition events_bootstrap_reuse :: "(pm_env \<times> event) list" where
  "events_bootstrap_reuse =
     [(env_no_streams, Start), (env_no_streams, ConnectCompleted 5 (Connected 5)),
      (env_live, StreamCompleted 5 True), (env_live, Align)]"

text \<open>
  Peer 1 sends a status and is discovered; the peers 7 and 8 are discovered; the block
  announce stream to peer 7 opens; an alignment runs.
\<close>

definition events_discover_promote :: "(pm_env \<times> event) list" where
  "events_discover_promote =
     [(env_live, UpdatePeerStatus 1 default_Status), (env_live, ProcessDiscoveredPeer 1),
      (env_live, ProcessDiscoveredPeer 7), (env_live, ProcessDiscoveredPeer 8),
      (env_live, StreamCompleted 7 True), (env_live, Align)]"

section \<open>Auxiliary facts\<close>

subsection \<open>The queue and its set\<close>

lemma queue_mirror_distinct: "queue_mirror s \<Longrightarrow> distinct (queue_to_connect s)"
  unfolding queue_mirror_def fcard.rep_eq by (metis card_distinct)

lemma queue_mirror_iff:
  "queue_mirror s = (fset (peers_in_queue s) = set (queue_to_connect s) \<and> distinct (queue_to_connect s))"
  unfolding queue_mirror_def fcard.rep_eq
  by (metis card_distinct distinct_card)

lemma queue_mirror_cong:
  "queue_to_connect t = queue_to_connect s \<Longrightarrow> peers_in_queue t = peers_in_queue s \<Longrightarrow>
   queue_mirror t = queue_mirror s"
  by (simp add: queue_mirror_def)

lemma assert_queue_sizes_ok: "queue_mirror s \<Longrightarrow> assert_queue_sizes s = Inr s"
  by (simp add: assert_queue_sizes_def queue_mirror_def)

lemma remove_from_queue_ok:
  assumes "queue_mirror s"
  shows "remove_from_queue p s =
           Inr (s\<lparr>queue_to_connect := filter (\<lambda>q. q \<noteq> p) (queue_to_connect s),
                  peers_in_queue := peers_in_queue s |-| {|p|}\<rparr>)"
proof (cases "p |\<in>| peers_in_queue s")
  case False
  with assms have "p \<notin> set (queue_to_connect s)"
    by (simp add: queue_mirror_def)
  then have "filter (\<lambda>q. q \<noteq> p) (queue_to_connect s) = queue_to_connect s"
    by (auto simp: filter_id_conv)
  moreover from False have "peers_in_queue s |-| {|p|} = peers_in_queue s"
    by auto
  ultimately show ?thesis using False by (simp add: remove_from_queue_def)
next
  case True
  from assms have d: "distinct (queue_to_connect s)" by (rule queue_mirror_distinct)
  from True assms have m: "p \<in> set (queue_to_connect s)"
    by (simp add: queue_mirror_def)
  have r: "remove1 p (queue_to_connect s) = filter (\<lambda>q. q \<noteq> p) (queue_to_connect s)"
    using d by (simp add: distinct_remove1_removeAll removeAll_filter_not_eq neq_commute)
  let ?t = "s\<lparr>queue_to_connect := remove1 p (queue_to_connect s),
                peers_in_queue := peers_in_queue s |-| {|p|}\<rparr>"
  have "queue_mirror ?t"
    using assms d by (auto simp: queue_mirror_iff)
  then have "assert_queue_sizes ?t = Inr ?t" by (rule assert_queue_sizes_ok)
  with True m r show ?thesis by (simp add: remove_from_queue_def)
qed

lemma queue_mirror_removed:
  "queue_mirror s \<Longrightarrow>
   queue_mirror (s\<lparr>queue_to_connect := filter (\<lambda>q. q \<noteq> p) (queue_to_connect s),
                  peers_in_queue := peers_in_queue s |-| {|p|}\<rparr>)"
  by (auto simp: queue_mirror_iff)

subsection \<open>Frames\<close>

lemma log_call_fields [simp]:
  "active_peers (log_call c s) = active_peers s"
  "connecting_peers (log_call c s) = connecting_peers s"
  "queue_to_connect (log_call c s) = queue_to_connect s"
  "peers_in_queue (log_call c s) = peers_in_queue s"
  "calls (log_call c s) = calls s @ [c]"
  by (simp_all add: log_call_def)

lemma find_active_simps [simp]:
  "find_active p (log_call c s) = find_active p s"
  "find_active p (s\<lparr>connecting_peers := cp\<rparr>) = find_active p s"
  "find_active p (s\<lparr>queue_to_connect := q\<rparr>) = find_active p s"
  "find_active p (s\<lparr>peers_in_queue := pq\<rparr>) = find_active p s"
  by (simp_all add: find_active_def)

lemma disconnectFromPeer_queue [simp]:
  "queue_to_connect (disconnectFromPeer p s) = queue_to_connect s"
  "peers_in_queue (disconnectFromPeer p s) = peers_in_queue s"
  "connecting_peers (disconnectFromPeer p s) = connecting_peers s"
  by (simp_all add: disconnectFromPeer_def split: option.splits)

lemma connectToPeer_fields [simp]:
  "active_peers (connectToPeer env p s) = active_peers s"
  "connecting_peers (connectToPeer env p s) = connecting_peers s"
  "queue_to_connect (connectToPeer env p s) = queue_to_connect s"
  "peers_in_queue (connectToPeer env p s) = peers_in_queue s"
  by (simp_all add: connectToPeer_def)

lemma processFullyConnectedPeer_fields [simp]:
  "active_peers (processFullyConnectedPeer env cfg p s) = active_peers s"
  "queue_to_connect (processFullyConnectedPeer env cfg p s) = queue_to_connect s"
  "peers_in_queue (processFullyConnectedPeer env cfg p s) = peers_in_queue s"
  by (simp_all add: processFullyConnectedPeer_def Let_def split: option.splits)

lemma check_disconnected_aux_queue:
  "queue_to_connect (foldl (\<lambda>st entry. if \<not> isAlive env (fst entry) then disconnectFromPeer (fst entry) st else st) s xs) = queue_to_connect s
   \<and> peers_in_queue (foldl (\<lambda>st entry. if \<not> isAlive env (fst entry) then disconnectFromPeer (fst entry) st else st) s xs) = peers_in_queue s
   \<and> connecting_peers (foldl (\<lambda>st entry. if \<not> isAlive env (fst entry) then disconnectFromPeer (fst entry) st else st) s xs) = connecting_peers s"
  by (induction xs arbitrary: s) simp_all

lemma check_disconnected_queue [simp]:
  "queue_to_connect (check_disconnected env s) = queue_to_connect s"
  "peers_in_queue (check_disconnected env s) = peers_in_queue s"
  "connecting_peers (check_disconnected env s) = connecting_peers s"
  by (simp_all add: check_disconnected_def check_disconnected_aux_queue)

lemma reuse_bootstrap_aux:
  "queue_to_connect (foldl (\<lambda>st b. if own \<noteq> peer_id b then connectToPeer env (peer_id b) (st\<lparr>connecting_peers := finsert (peer_id b) (connecting_peers st)\<rparr>) else st) s bs) = queue_to_connect s
  \<and> peers_in_queue (foldl (\<lambda>st b. if own \<noteq> peer_id b then connectToPeer env (peer_id b) (st\<lparr>connecting_peers := finsert (peer_id b) (connecting_peers st)\<rparr>) else st) s bs) = peers_in_queue s
  \<and> active_peers (foldl (\<lambda>st b. if own \<noteq> peer_id b then connectToPeer env (peer_id b) (st\<lparr>connecting_peers := finsert (peer_id b) (connecting_peers st)\<rparr>) else st) s bs) = active_peers s"
  by (induction bs arbitrary: s) simp_all

lemma reuse_bootstrap_nodes_fields [simp]:
  "queue_to_connect (reuse_bootstrap_nodes env cfg s) = queue_to_connect s"
  "peers_in_queue (reuse_bootstrap_nodes env cfg s) = peers_in_queue s"
  "active_peers (reuse_bootstrap_nodes env cfg s) = active_peers s"
  by (simp_all add: reuse_bootstrap_nodes_def reuse_bootstrap_aux)

subsection \<open>The active map\<close>

lemma find_active_None_iff: "(find_active p s = None) = (p \<notin> fst ` set (active_peers s))"
  by (simp add: find_active_def map_of_eq_None_iff)

lemma erase_entry_keys: "fst ` set (erase_entry p xs) \<subseteq> fst ` set xs"
  by (induction xs) auto

lemma erase_entry_absent: "p \<notin> fst ` set xs \<Longrightarrow> erase_entry p xs = xs"
  by (induction xs) auto


lemma modify_entry_keys [simp]: "map fst (modify_entry p f xs) = map fst xs"
  by (induction xs) auto

lemma modify_entry_map_of:
  "map_of (modify_entry p f xs) = (map_of xs)(p := map_option f (map_of xs p))"
  by (induction xs) (auto simp: fun_eq_iff)

lemma modify_entry_key_set [simp]: "fst ` set (modify_entry p f xs) = fst ` set xs"
  using modify_entry_keys [of p f xs] by (metis set_map)

lemma disconnectFromPeer_active:
  "active_peers (disconnectFromPeer p s) = erase_entry p (active_peers s)"
proof (cases "find_active p s")
  case None
  then have "p \<notin> fst ` set (active_peers s)" by (simp add: find_active_None_iff)
  then have "erase_entry p (active_peers s) = active_peers s" by (rule erase_entry_absent)
  with None show ?thesis by (simp add: disconnectFromPeer_def)
next
  case (Some d)
  then show ?thesis by (simp add: disconnectFromPeer_def)
qed

lemma disconnectFromPeer_keys:
  "fst ` set (active_peers (disconnectFromPeer p s)) \<subseteq> fst ` set (active_peers s)"
  unfolding disconnectFromPeer_active by (rule erase_entry_keys)

text \<open>The liveness sweep on the entries alone.\<close>

lemma sweep_active:
  "active_peers (foldl (\<lambda>st entry. if \<not> isAlive env (fst entry) then disconnectFromPeer (fst entry) st else st) s xs)
   = foldl (\<lambda>ys entry. if \<not> isAlive env (fst entry) then erase_entry (fst entry) ys else ys) (active_peers s) xs"
  by (induction xs arbitrary: s) (simp_all add: disconnectFromPeer_active)

lemma check_disconnected_active:
  "active_peers (check_disconnected env s)
   = foldl (\<lambda>ys entry. if \<not> isAlive env (fst entry) then erase_entry (fst entry) ys else ys)
       (active_peers s) (active_peers s)"
  by (simp add: check_disconnected_def sweep_active)

lemma sweep_entries_keys:
  "fst ` set (foldl (\<lambda>ys entry. if \<not> isAlive env (fst entry) then erase_entry (fst entry) ys else ys) ys xs)
   \<subseteq> fst ` set ys"
proof (induction xs arbitrary: ys)
  case Nil
  show ?case by simp
next
  case (Cons x xs)
  show ?case
  proof (cases "isAlive env (fst x)")
    case True
    with Cons.IH [of ys] show ?thesis by simp
  next
    case False
    then have "foldl (\<lambda>ys entry. if \<not> isAlive env (fst entry) then erase_entry (fst entry) ys else ys) ys (x # xs)
        = foldl (\<lambda>ys entry. if \<not> isAlive env (fst entry) then erase_entry (fst entry) ys else ys)
            (erase_entry (fst x) ys) xs"
      by simp
    with order_trans [OF Cons.IH [of "erase_entry (fst x) ys"] erase_entry_keys [of "fst x" ys]]
    show ?thesis by simp
  qed
qed

lemma check_disconnected_keys:
  "fst ` set (active_peers (check_disconnected env s)) \<subseteq> fst ` set (active_peers s)"
  unfolding check_disconnected_active by (rule sweep_entries_keys)



lemma min_element_from_mem: "min_element_from x xs \<in> set (x # xs)"
proof (induction xs arbitrary: x)
  case Nil
  show ?case by simp
next
  case (Cons y ys)
  from Cons.IH [of "if time (snd y) < time (snd x) then y else x"]
  show ?case by (auto split: if_splits)
qed

lemma min_element_mem: "min_element xs = Some e \<Longrightarrow> e \<in> set xs"
  using min_element_from_mem by (cases xs) (auto simp: min_element_def)

subsection \<open>Alignment\<close>

lemma disconnectFromPeer_ref_entry:
  assumes "e \<in> set (active_peers s)"
  shows "disconnectFromPeer_ref (fst e) s = Inl UndefinedBehaviour"
proof -
  from assms have "find_active (fst e) s \<noteq> None" by (simp add: find_active_None_iff)
  then show ?thesis by (auto simp: disconnectFromPeer_ref_def)
qed

lemma soft_limit_exceeded_eq:
  "soft_limit_exceeded env cfg s =
     (if eviction_due env cfg (active_peers s) then Inl UndefinedBehaviour else Inr s)"
proof (cases "min_element (active_peers s)")
  case None
  then show ?thesis by (simp add: soft_limit_exceeded_def eviction_due_def)
next
  case (Some oldest)
  from min_element_mem [OF Some] have "disconnectFromPeer_ref (fst oldest) s = Inl UndefinedBehaviour"
    by (rule disconnectFromPeer_ref_entry)
  with Some show ?thesis by (simp add: soft_limit_exceeded_def eviction_due_def)
qed

lemma align_evicts_cong:
  "active_peers a = active_peers b \<Longrightarrow> align_evicts env cfg a = align_evicts env cfg b"
  by (simp add: align_evicts_def check_disconnected_active)

lemma align_eq:
  "align env cfg s =
     (if align_evicts env cfg s then Inl UndefinedBehaviour
      else (case not_enough_active_peers env cfg (check_disconnected env (log_call TimerCancel s)) of
              Inl e \<Rightarrow> Inl e
            | Inr s3 \<Rightarrow> Inr (log_call (SchedulerSchedule (aligningPeriod cfg)) s3)))"
proof -
  have "align_evicts env cfg (log_call TimerCancel s) = align_evicts env cfg s"
    by (rule align_evicts_cong) simp
  then show ?thesis
    by (simp add: align_def soft_limit_exceeded_eq align_evicts_def)
qed

lemma not_enough_active_peers_returns:
  assumes "queue_mirror s"
  shows "\<exists>t. not_enough_active_peers env cfg s = Inr t \<and> queue_mirror t \<and> active_peers t = active_peers s"
proof (cases "length (active_peers s) < targetPeerAmount cfg")
  case False
  with assms show ?thesis by (simp add: not_enough_active_peers_def)
next
  case True
  show ?thesis
  proof (cases "queue_to_connect s")
    case Nil
    with True assms show ?thesis
      by (simp add: not_enough_active_peers_def queue_mirror_cong [of "reuse_bootstrap_nodes env cfg s" s])
  next
    case (Cons front rest)
    let ?t = "s\<lparr>peers_in_queue := peers_in_queue s |-| {|front|}, queue_to_connect := rest\<rparr>"
    from assms Cons have m: "front |\<in>| peers_in_queue s" by (simp add: queue_mirror_def)
    from assms Cons have "queue_mirror ?t" by (auto simp: queue_mirror_iff)
    then show ?thesis using True Cons m
      by (simp add: not_enough_active_peers_def assert_queue_sizes_ok
            queue_mirror_cong [of "connectToPeer env front (?t\<lparr>connecting_peers := finsert front (connecting_peers s)\<rparr>)" ?t])
  qed
qed

lemma not_enough_active_peers_queue_subset:
  "not_enough_active_peers env cfg s = Inr t \<Longrightarrow>
   peers_in_queue t |\<subseteq>| peers_in_queue s \<and> active_peers t = active_peers s"
  by (auto simp: not_enough_active_peers_def assert_queue_sizes_def
           split: if_splits list.splits sum.splits)

lemma check_disconnected_log_active:
  "active_peers (check_disconnected env (log_call c s)) = active_peers (check_disconnected env s)"
  by (simp add: check_disconnected_active)

lemma align_completes:
  assumes "queue_mirror s" and "\<not> align_evicts env cfg s"
  shows "\<exists>t. align env cfg s = Inr t \<and> queue_mirror t"
proof -
  let ?s1 = "check_disconnected env (log_call TimerCancel s)"
  from assms(1) have "queue_mirror ?s1" by (simp add: queue_mirror_def)
  then obtain s3 where "not_enough_active_peers env cfg ?s1 = Inr s3" "queue_mirror s3"
    using not_enough_active_peers_returns by blast
  with assms(2) show ?thesis by (simp add: align_eq queue_mirror_def)
qed

lemma align_result:
  assumes "align env cfg s = Inr t"
  shows "\<not> align_evicts env cfg s"
    and "active_peers t = active_peers (check_disconnected env s)"
    and "peers_in_queue t |\<subseteq>| peers_in_queue s"
proof -
  let ?s1 = "check_disconnected env (log_call TimerCancel s)"
  from assms show e: "\<not> align_evicts env cfg s"
    by (auto simp: align_eq split: if_splits)
  with assms obtain s3 where s3: "not_enough_active_peers env cfg ?s1 = Inr s3"
    and t: "t = log_call (SchedulerSchedule (aligningPeriod cfg)) s3"
    by (auto simp: align_eq split: sum.splits)
  from not_enough_active_peers_queue_subset [OF s3] t
  show "active_peers t = active_peers (check_disconnected env s)"
    and "peers_in_queue t |\<subseteq>| peers_in_queue s"
    by (simp_all add: check_disconnected_log_active)
qed

lemma start_eq:
  "\<exists>s4. active_peers s4 = active_peers s \<and> queue_to_connect s4 = queue_to_connect s
       \<and> peers_in_queue s4 = peers_in_queue s
       \<and> start env cfg s =
           (if isRunInDevMode cfg \<and> bootstrap_nodes cfg = [] then Inr (True, s)
            else (case align env cfg s4 of Inl e \<Rightarrow> Inl e | Inr s5 \<Rightarrow> Inr (True, s5)))"
proof -
  have f: "active_peers (foldl (\<lambda>st bootstrap_node. log_call (KademliaAddPeer bootstrap_node True) st) u bs) = active_peers u
      \<and> queue_to_connect (foldl (\<lambda>st bootstrap_node. log_call (KademliaAddPeer bootstrap_node True) st) u bs) = queue_to_connect u
      \<and> peers_in_queue (foldl (\<lambda>st bootstrap_node. log_call (KademliaAddPeer bootstrap_node True) st) u bs) = peers_in_queue u" for u bs
    by (induction bs arbitrary: u) simp_all
  show ?thesis
    by (rule exI [of _ "log_call KademliaStart
          (foldl (\<lambda>st bootstrap_node. log_call (KademliaAddPeer bootstrap_node True) st)
             (log_call IdentifyStart (log_call OnIdentifyReceived (log_call SubscribePeerAdded
                (log_call (KademliaAddPeer \<lparr>peer_id = own_peer_id cfg,
                   addresses = getPeerInfo env (own_peer_id cfg)\<rparr> True) s))))
             (bootstrap_nodes cfg))"])
       (simp add: start_def Let_def f)
qed

lemma processDiscoveredPeer_returns:
  assumes "queue_mirror s"
  shows "\<exists>t. processDiscoveredPeer cfg p s = Inr t \<and> queue_mirror t"
proof (cases "own_peer_id cfg = p \<or> find_active p s \<noteq> None \<or> p |\<in>| peers_in_queue s")
  case True
  with assms show ?thesis by (auto simp: processDiscoveredPeer_def)
next
  case False
  let ?t = "s\<lparr>peers_in_queue := finsert p (peers_in_queue s), queue_to_connect := queue_to_connect s @ [p]\<rparr>"
  from False assms have "queue_mirror ?t" by (auto simp: queue_mirror_iff)
  with False show ?thesis by (simp add: processDiscoveredPeer_def assert_queue_sizes_ok)
qed

lemma updatePeerStatus_returns:
  assumes "queue_mirror s"
  shows "\<exists>t. updatePeerStatus env p st s = Inr t \<and> queue_mirror t"
proof (cases "find_active p s")
  case (Some d)
  with assms show ?thesis by (simp add: updatePeerStatus_def queue_mirror_def)
next
  case None
  let ?s1 = "s\<lparr>connecting_peers := connecting_peers s |-| {|p|}\<rparr>"
  from assms have m: "queue_mirror ?s1" by (simp add: queue_mirror_def)
  from queue_mirror_removed [OF m] show ?thesis using None
    by (simp add: updatePeerStatus_def remove_from_queue_ok [OF m] queue_mirror_def)
qed

lemma stream_completed_returns:
  assumes "queue_mirror s"
  shows "\<exists>t. stream_completed env p ok s = Inr t \<and> queue_mirror t"
proof (cases "ok \<and> find_active p s = None")
  case False
  with assms show ?thesis
    by (auto simp: stream_completed_def Let_def queue_mirror_def)
next
  case True
  let ?s2 = "s\<lparr>connecting_peers := connecting_peers s |-| {|p|},
                active_peers := active_peers s @ [(p, \<lparr>time = now env, status = default_Status\<rparr>)]\<rparr>"
  from assms have m: "queue_mirror ?s2" by (simp add: queue_mirror_def)
  from queue_mirror_removed [OF m] show ?thesis using True
    by (simp add: stream_completed_def Let_def remove_from_queue_ok [OF m])
qed

lemma step_mirror_cases:
  assumes "queue_mirror s"
  shows "if evicting cfg ev s then step cfg ev s = Inl UndefinedBehaviour
         else (\<exists>t. step cfg ev s = Inr t \<and> queue_mirror t)"
proof (cases ev)
  case (Pair env e)
  show ?thesis
  proof (cases e)
    case Start
    from start_eq [of s env cfg] obtain s4 where a: "active_peers s4 = active_peers s"
      and q: "queue_to_connect s4 = queue_to_connect s" "peers_in_queue s4 = peers_in_queue s"
      and st: "start env cfg s =
           (if isRunInDevMode cfg \<and> bootstrap_nodes cfg = [] then Inr (True, s)
            else (case align env cfg s4 of Inl e \<Rightarrow> Inl e | Inr s5 \<Rightarrow> Inr (True, s5)))"
      by blast
    from q assms have m4: "queue_mirror s4" by (simp add: queue_mirror_def)
    from a have ev4: "align_evicts env cfg s4 = align_evicts env cfg s" by (rule align_evicts_cong)
    show ?thesis
    proof (cases "isRunInDevMode cfg \<and> bootstrap_nodes cfg = []")
      case True
      with assms Pair Start st show ?thesis by simp
    next
      case active_mode: False
      show ?thesis
      proof (cases "align_evicts env cfg s")
        case True
        with ev4 have "align env cfg s4 = Inl UndefinedBehaviour" by (simp add: align_eq)
        with True active_mode Pair Start st show ?thesis by auto
      next
        case False
        with ev4 align_completes [OF m4, of env cfg] obtain t
          where "align env cfg s4 = Inr t" "queue_mirror t" by auto
        with False active_mode Pair Start st show ?thesis by auto
      qed
    qed
  next
    case Stop
    with assms Pair show ?thesis by (simp add: stop_def queue_mirror_def)
  next
    case Align
    show ?thesis
    proof (cases "align_evicts env cfg s")
      case True
      with Pair Align show ?thesis by (simp add: align_eq)
    next
      case False
      with align_completes [OF assms, of env cfg] Pair Align show ?thesis by simp
    qed
  next
    case (ProcessDiscoveredPeer p)
    with assms Pair show ?thesis by (simp add: processDiscoveredPeer_returns)
  next
    case (ProcessFullyConnectedPeer p)
    with assms Pair show ?thesis by (simp add: queue_mirror_def)
  next
    case (ConnectToPeer p)
    with assms Pair show ?thesis by (simp add: queue_mirror_def)
  next
    case (ConnectToPeerInfo i)
    with assms Pair show ?thesis by (simp add: queue_mirror_def connectToPeer_info_def Let_def)
  next
    case (ConnectCompleted p res)
    with assms Pair show ?thesis
      by (cases res) (simp_all add: queue_mirror_def connect_completed_def Let_def)
  next
    case (StreamCompleted p ok)
    with assms Pair show ?thesis by (simp add: stream_completed_returns)
  next
    case (KeepAlive p)
    with assms Pair show ?thesis by (simp add: queue_mirror_def keepAlive_def split: option.splits)
  next
    case (UpdatePeerStatus p st)
    with assms Pair show ?thesis by (simp add: updatePeerStatus_returns)
  next
    case (UpdatePeerStatusBestBlock p bb)
    with assms Pair show ?thesis
      by (simp add: queue_mirror_def updatePeerStatus_best_block_def split: option.splits)
  next
    case (ReserveStreams p)
    with assms Pair show ?thesis by (simp add: queue_mirror_def reserveStreams_def)
  qed
qed

lemma run_mirror_cases:
  assumes "queue_mirror s"
  shows "if eviction_free cfg evs s then (\<exists>t. run cfg evs s = Inr t \<and> queue_mirror t)
         else run cfg evs s = Inl UndefinedBehaviour"
  using assms
proof (induction evs arbitrary: s)
  case Nil
  then show ?case by simp
next
  case (Cons ev evs)
  show ?case
  proof (cases "evicting cfg ev s")
    case True
    with step_mirror_cases [OF Cons.prems, of cfg ev] show ?thesis by simp
  next
    case False
    with step_mirror_cases [OF Cons.prems, of cfg ev] obtain s1
      where s1: "step cfg ev s = Inr s1" "queue_mirror s1" by auto
    from Cons.IH [OF s1(2)] False s1(1) show ?thesis by simp
  qed
qed

subsection \<open>Active peers and queued peers\<close>

lemma active_not_queued_iff:
  "active_not_queued s = (\<forall>p. p \<in> fst ` set (active_peers s) \<longrightarrow> p |\<notin>| peers_in_queue s)"
  by (auto simp: active_not_queued_def list_all_iff)

lemma active_not_queued_cong:
  "fst ` set (active_peers t) \<subseteq> fst ` set (active_peers s) \<Longrightarrow>
   peers_in_queue t |\<subseteq>| peers_in_queue s \<Longrightarrow> active_not_queued s \<Longrightarrow> active_not_queued t"
  unfolding active_not_queued_iff by (meson fsubsetD subsetD)

lemma align_active_not_queued:
  assumes "align env cfg s = Inr t" and "active_not_queued s"
  shows "active_not_queued t"
proof -
  from align_result(2,3) [OF assms(1)] check_disconnected_keys [of env s]
  have "fst ` set (active_peers t) \<subseteq> fst ` set (active_peers s)"
    and "peers_in_queue t |\<subseteq>| peers_in_queue s"
    by simp_all
  then show ?thesis using assms(2) by (rule active_not_queued_cong)
qed

lemma active_not_queued_ball:
  "active_not_queued s = (\<forall>x\<in>set (active_peers s). fst x |\<notin>| peers_in_queue s)"
  by (simp add: active_not_queued_def list_all_iff)

lemma active_not_queued_modify:
  "active_not_queued (s\<lparr>active_peers := modify_entry p f (active_peers s)\<rparr>) = active_not_queued s"
  by (simp add: active_not_queued_iff)

lemma active_not_queued_promote:
  "active_not_queued s \<Longrightarrow>
   active_not_queued (s\<lparr>active_peers := active_peers s @ [(p, d)],
                        queue_to_connect := q,
                        peers_in_queue := peers_in_queue s |-| {|p|}\<rparr>)"
  by (auto simp: active_not_queued_ball)

lemma processDiscoveredPeer_active_not_queued:
  assumes "processDiscoveredPeer cfg p s = Inr t" and "active_not_queued s"
  shows "active_not_queued t"
proof (cases "own_peer_id cfg = p \<or> find_active p s \<noteq> None \<or> p |\<in>| peers_in_queue s")
  case True
  with assms have "t = s" by (auto simp: processDiscoveredPeer_def split: if_splits)
  with assms(2) show ?thesis by simp
next
  case False
  with assms(1) have t: "t = s\<lparr>peers_in_queue := finsert p (peers_in_queue s),
                                 queue_to_connect := queue_to_connect s @ [p]\<rparr>"
    by (simp add: processDiscoveredPeer_def assert_queue_sizes_def split: if_splits)
  from False have "p \<notin> fst ` set (active_peers s)" by (simp add: find_active_None_iff)
  with assms(2) show ?thesis unfolding t active_not_queued_iff by auto
qed

lemma updatePeerStatus_active_not_queued:
  assumes "updatePeerStatus env p st s = Inr t" and "active_not_queued s" and "queue_mirror s"
  shows "active_not_queued t"
proof (cases "find_active p s")
  case (Some d)
  with assms show ?thesis by (auto simp: updatePeerStatus_def active_not_queued_modify)
next
  case None
  let ?s1 = "s\<lparr>connecting_peers := connecting_peers s |-| {|p|}\<rparr>"
  from assms(3) have m: "queue_mirror ?s1" by (simp add: queue_mirror_def)
  from assms(1) None
  have "t = s\<lparr>active_peers := active_peers s @ [(p, \<lparr>time = now env, status = st\<rparr>)],
                queue_to_connect := filter (\<lambda>q. q \<noteq> p) (queue_to_connect s),
                peers_in_queue := peers_in_queue s |-| {|p|},
                connecting_peers := connecting_peers s |-| {|p|}\<rparr>"
    by (auto simp: updatePeerStatus_def remove_from_queue_ok [OF m])
  with active_not_queued_promote [OF assms(2)] show ?thesis
    by (simp add: active_not_queued_def)
qed

lemma stream_completed_active_not_queued:
  assumes "stream_completed env p ok s = Inr t" and "active_not_queued s" and "queue_mirror s"
  shows "active_not_queued t"
proof (cases "ok \<and> find_active p s = None")
  case False
  let ?s1 = "s\<lparr>connecting_peers := connecting_peers s |-| {|p|}\<rparr>"
  from False assms(1) have "t = disconnectFromPeer p ?s1 \<or> t = ?s1"
    by (auto simp: stream_completed_def Let_def split: if_splits)
  then show ?thesis
  proof
    assume t: "t = disconnectFromPeer p ?s1"
    show ?thesis
      using active_not_queued_cong [OF _ _ assms(2), of t] disconnectFromPeer_keys [of p ?s1] t
      by simp
  next
    assume "t = ?s1"
    with assms(2) show ?thesis by (simp add: active_not_queued_def)
  qed
next
  case True
  let ?s2 = "s\<lparr>connecting_peers := connecting_peers s |-| {|p|},
                active_peers := active_peers s @ [(p, \<lparr>time = now env, status = default_Status\<rparr>)]\<rparr>"
  from assms(3) have m: "queue_mirror ?s2" by (simp add: queue_mirror_def)
  from assms(1) True
  have "t = s\<lparr>active_peers := active_peers s @ [(p, \<lparr>time = now env, status = default_Status\<rparr>)],
                queue_to_connect := filter (\<lambda>q. q \<noteq> p) (queue_to_connect s),
                peers_in_queue := peers_in_queue s |-| {|p|},
                connecting_peers := connecting_peers s |-| {|p|}\<rparr>"
    by (auto simp: stream_completed_def Let_def remove_from_queue_ok [OF m])
  with active_not_queued_promote [OF assms(2)] show ?thesis
    by (simp add: active_not_queued_def)
qed

lemma start_active_not_queued:
  assumes "start env cfg s = Inr (b, t)" and "active_not_queued s"
  shows "active_not_queued t"
proof (cases "isRunInDevMode cfg \<and> bootstrap_nodes cfg = []")
  case True
  with assms show ?thesis by (simp add: start_def)
next
  case False
  have f: "active_peers (foldl (\<lambda>st bootstrap_node. log_call (KademliaAddPeer bootstrap_node True) st) u bs) = active_peers u
          \<and> peers_in_queue (foldl (\<lambda>st bootstrap_node. log_call (KademliaAddPeer bootstrap_node True) st) u bs) = peers_in_queue u" for u bs
    by (induction bs arbitrary: u) simp_all
  from False assms(1) obtain s4 where a: "align env cfg s4 = Inr t"
    and "active_peers s4 = active_peers s" "peers_in_queue s4 = peers_in_queue s"
    by (auto simp: start_def Let_def f split: sum.splits)
  with assms(2) have "active_not_queued s4" by (simp add: active_not_queued_def)
  with a show ?thesis by (rule align_active_not_queued)
qed

lemma step_active_not_queued:
  assumes "step cfg ev s = Inr t" and "active_not_queued s" and "queue_mirror s"
  shows "active_not_queued t"
proof (cases ev)
  case (Pair env e)
  show ?thesis
  proof (cases e)
    case Start
    with assms Pair show ?thesis
      by (auto split: sum.splits intro: start_active_not_queued)
  next
    case Stop
    with assms Pair show ?thesis by (auto simp: stop_def active_not_queued_def)
  next
    case Align
    with assms Pair show ?thesis by (auto intro: align_active_not_queued)
  next
    case (ProcessDiscoveredPeer p)
    with assms Pair show ?thesis by (auto intro: processDiscoveredPeer_active_not_queued)
  next
    case (ProcessFullyConnectedPeer p)
    with assms Pair show ?thesis by (auto simp: active_not_queued_def)
  next
    case (ConnectToPeer p)
    with assms Pair show ?thesis by (auto simp: active_not_queued_def)
  next
    case (ConnectToPeerInfo i)
    with assms Pair show ?thesis by (auto simp: active_not_queued_def connectToPeer_info_def Let_def)
  next
    case (ConnectCompleted p res)
    with assms Pair show ?thesis
      by (cases res) (auto simp: active_not_queued_def connect_completed_def Let_def)
  next
    case (StreamCompleted p ok)
    with assms Pair show ?thesis by (auto intro: stream_completed_active_not_queued)
  next
    case (KeepAlive p)
    with assms Pair show ?thesis by (auto simp: active_not_queued_modify keepAlive_def split: option.splits)
  next
    case (UpdatePeerStatus p st)
    with assms Pair show ?thesis by (auto intro: updatePeerStatus_active_not_queued)
  next
    case (UpdatePeerStatusBestBlock p bb)
    with assms Pair show ?thesis
      by (auto simp: active_not_queued_modify updatePeerStatus_best_block_def split: option.splits)
  next
    case (ReserveStreams p)
    with assms Pair show ?thesis by (auto simp: active_not_queued_def reserveStreams_def)
  qed
qed

lemma run_active_not_queued:
  assumes "queue_mirror s" and "active_not_queued s" and "run cfg evs s = Inr t"
  shows "active_not_queued t"
  using assms
proof (induction evs arbitrary: s)
  case Nil
  then show ?case by simp
next
  case (Cons ev evs)
  from Cons.prems(3) obtain s1 where s1: "step cfg ev s = Inr s1" and r: "run cfg evs s1 = Inr t"
    by (auto split: sum.splits)
  from step_mirror_cases [OF Cons.prems(1), of cfg ev] s1 have m: "queue_mirror s1"
    by (auto split: if_splits)
  from step_active_not_queued [OF s1 Cons.prems(2) Cons.prems(1)] have "active_not_queued s1" .
  from Cons.IH [OF m this r] show ?case .
qed

lemmas model_defs =
  initial_state_def default_Status_def find_active_def assert_queue_sizes_def remove_from_queue_def
  log_call_def disconnectFromPeer_def updatePeerStatus_def processDiscoveredPeer_def
  connectToPeer_def processFullyConnectedPeer_def stream_completed_def connect_completed_def
  check_disconnected_def disconnectFromPeer_ref_def soft_limit_exceeded_def min_element_def
  reuse_bootstrap_nodes_def not_enough_active_peers_def align_def start_def
  eviction_due_def align_evicts_def activePeersNumber_def fcard.rep_eq Let_def

section \<open>Properties of the operations\<close>

subsection \<open>C1: active peers after an alignment pass\<close>




subsection \<open>C2: a peer in several indices\<close>

text \<open>
  C2, as the code has it. Take a state in which the queue mirrors its set and no active
  peer is queued, and any sequence of operations and completion handlers. If no alignment
  of the sequence has an eviction due, the sequence returns; and whenever the sequence
  returns, no active peer is queued in the state it reaches. The set of connecting peers
  is kept apart neither from the queued peers nor from the active peers.
\<close>

theorem active_not_queued_invariant:
  assumes "queue_mirror s" and "active_not_queued s"
  shows "(eviction_free cfg evs s \<longrightarrow> (\<exists>t. run cfg evs s = Inr t))
       \<and> (\<forall>t. run cfg evs s = Inr t \<longrightarrow> active_not_queued t)"
proof (intro conjI impI allI)
  assume "eviction_free cfg evs s"
  with run_mirror_cases [OF assms(1), of cfg evs] show "\<exists>t. run cfg evs s = Inr t" by auto
next
  fix t
  assume "run cfg evs s = Inr t"
  with assms show "active_not_queued t" by (rule run_active_not_queued)
qed

text \<open>
  With all limits 2: peer 1 becomes active by a status and is then discovered, which
  queues nothing; the peers 7 and 8 are discovered and queued; the stream to peer 7
  opens, which makes it active and takes it from the queue; an alignment finds two live
  peers and evicts none. In the end the peers 1 and 7 are active and peer 8 is queued.
\<close>

theorem active_not_queued_invariant_witness:
  "queue_mirror initial_state \<and> active_not_queued initial_state
   \<and> eviction_free cfg_bootstrap_two events_discover_promote initial_state
   \<and> (\<exists>t. run cfg_bootstrap_two events_discover_promote initial_state = Inr t
          \<and> active_not_queued t
          \<and> map fst (active_peers t) = [1, 7] \<and> queue_to_connect t = [8]
          \<and> peers_in_queue t = {|8|})"
proof -
  have h1: "queue_mirror initial_state"
    by (simp add: queue_mirror_def initial_state_def)
  have h2: "active_not_queued initial_state"
    by (simp add: active_not_queued_def initial_state_def)
  have h3: "eviction_free cfg_bootstrap_two events_discover_promote initial_state"
    by (simp add: model_defs events_discover_promote_def env_live_def cfg_bootstrap_two_def)
  have r: "\<exists>t. run cfg_bootstrap_two events_discover_promote initial_state = Inr t
          \<and> map fst (active_peers t) = [1, 7] \<and> queue_to_connect t = [8]
          \<and> peers_in_queue t = {|8|}"
    by (auto simp: model_defs events_discover_promote_def env_live_def cfg_bootstrap_two_def)
  from active_not_queued_invariant [OF h1 h2, of cfg_bootstrap_two events_discover_promote] r
  have "\<exists>t. run cfg_bootstrap_two events_discover_promote initial_state = Inr t
          \<and> active_not_queued t
          \<and> map fst (active_peers t) = [1, 7] \<and> queue_to_connect t = [8]
          \<and> peers_in_queue t = {|8|}"
    by auto
  with h1 h2 h3 show ?thesis by blast
qed

text \<open>
  C2 as stated fails, twice, and in neither run is a peer evicted. Peer 7 is discovered
  and queued, an alignment moves it to the connecting set and dials it, and it is
  discovered again before the dial completes: \<open>processDiscoveredPeer\<close> tests for the node
  itself, for an active peer and for a queued peer, and so queues peer 7 while it is
  connecting. And the node starts and dials its bootstrap node 5, the block announce
  stream to peer 5 opens and peer 5 is active; the next alignment finds fewer active
  peers than the target, an empty queue and no peer connecting, and puts peer 5 into the
  connecting set while it is active.
\<close>

theorem connecting_and_queued_counterexample:
  "(case run cfg_limit_one events_discover_dial_discover initial_state of
      Inr t \<Rightarrow> 7 |\<in>| connecting_peers t \<and> 7 |\<in>| peers_in_queue t \<and> queue_to_connect t = [7]
    | Inl e \<Rightarrow> False)
   \<and> (case run cfg_bootstrap_two events_bootstrap_reuse initial_state of
      Inr t \<Rightarrow> 5 |\<in>| connecting_peers t \<and> map fst (active_peers t) = [5]
    | Inl e \<Rightarrow> False)"
  by (simp add: model_defs events_discover_dial_discover_def events_bootstrap_reuse_def
        env_live_def env_no_streams_def cfg_limit_one_def cfg_bootstrap_two_def)

subsection \<open>C3: promotion of a peer that is already active\<close>

text \<open>
  C3, as the code has it. When the block announce stream to an active peer \<open>p\<close> opens, the
  completion handler removes \<open>p\<close> from the connecting set and changes nothing else:
  \<open>emplace\<close> does not replace the entry of \<open>p\<close>, so its time and status stay, and the queue
  is not touched.
\<close>

theorem stream_completed_already_active:
  assumes "find_active p s \<noteq> None"
  shows "stream_completed env p True s = Inr (s\<lparr>connecting_peers := connecting_peers s |-| {|p|}\<rparr>)"
  using assms by (auto simp: stream_completed_def)

theorem stream_completed_already_active_witness:
  "find_active 1 state_active_1 \<noteq> None
   \<and> stream_completed env_live 1 True state_active_1 = Inr state_active_1"
proof -
  have h: "find_active 1 state_active_1 \<noteq> None"
    by (simp add: find_active_def state_active_1_def)
  from stream_completed_already_active [OF h, of env_live] h show ?thesis
    by (simp add: state_active_1_def)
qed

text \<open>
  C3 as stated fails. Peer 1 is active with time 5; its promotion at time 9 leaves the
  whole state as it was, the time of peer 1 included.
\<close>

theorem promotion_last_seen_counterexample:
  "now env_live = 9
   \<and> stream_completed env_live 1 True state_active_1 = Inr state_active_1
   \<and> map_option time (find_active 1 state_active_1) = Some 5"
  by (simp add: stream_completed_def find_active_def state_active_1_def env_live_def)

subsection \<open>C4: a whole status from a peer\<close>

text \<open>
  C4. For a peer \<open>p\<close> that is not active (the queue mirroring its set),
  \<open>updatePeerStatus\<close> with a whole status removes \<open>p\<close> from the connecting set, from the
  set of queued peers and from the deque, whose other peers keep their order, and adds to
  the active peers the entry of \<open>p\<close> with the status given and the time of the clock. For
  an active peer \<open>p\<close> it replaces the time and the status of \<open>p\<close>; the entries of the other
  peers, the order of the entries, the connecting set and the queue stay. No collaborator
  is called in either case.
\<close>

theorem updatePeerStatus_effect:
  "(queue_mirror s \<and> find_active p s = None \<longrightarrow>
      (\<exists>t. updatePeerStatus env p st s = Inr t
          \<and> connecting_peers t = connecting_peers s |-| {|p|}
          \<and> peers_in_queue t = peers_in_queue s |-| {|p|}
          \<and> queue_to_connect t = filter (\<lambda>q. q \<noteq> p) (queue_to_connect s)
          \<and> active_peers t = active_peers s @ [(p, \<lparr>time = now env, status = st\<rparr>)]
          \<and> calls t = calls s))
   \<and> (find_active p s \<noteq> None \<longrightarrow>
      (\<exists>t. updatePeerStatus env p st s = Inr t
          \<and> find_active p t = Some \<lparr>time = now env, status = st\<rparr>
          \<and> (\<forall>q. q \<noteq> p \<longrightarrow> find_active q t = find_active q s)
          \<and> map fst (active_peers t) = map fst (active_peers s)
          \<and> connecting_peers t = connecting_peers s
          \<and> peers_in_queue t = peers_in_queue s
          \<and> queue_to_connect t = queue_to_connect s
          \<and> calls t = calls s))"
proof (intro conjI impI)
  assume a: "queue_mirror s \<and> find_active p s = None"
  let ?s1 = "s\<lparr>connecting_peers := connecting_peers s |-| {|p|}\<rparr>"
  from a have m: "queue_mirror ?s1" by (simp add: queue_mirror_def)
  from a show "\<exists>t. updatePeerStatus env p st s = Inr t
          \<and> connecting_peers t = connecting_peers s |-| {|p|}
          \<and> peers_in_queue t = peers_in_queue s |-| {|p|}
          \<and> queue_to_connect t = filter (\<lambda>q. q \<noteq> p) (queue_to_connect s)
          \<and> active_peers t = active_peers s @ [(p, \<lparr>time = now env, status = st\<rparr>)]
          \<and> calls t = calls s"
    by (simp add: updatePeerStatus_def remove_from_queue_ok [OF m])
next
  assume "find_active p s \<noteq> None"
  then obtain d where d: "find_active p s = Some d" by blast
  then have "map_of (active_peers s) p = Some d" by (simp add: find_active_def)
  then have "map_option (\<lambda>d. d\<lparr>time := now env, status := st\<rparr>) (map_of (active_peers s) p)
      = Some \<lparr>time = now env, status = st\<rparr>" by simp
  with d show "\<exists>t. updatePeerStatus env p st s = Inr t
          \<and> find_active p t = Some \<lparr>time = now env, status = st\<rparr>
          \<and> (\<forall>q. q \<noteq> p \<longrightarrow> find_active q t = find_active q s)
          \<and> map fst (active_peers t) = map fst (active_peers s)
          \<and> connecting_peers t = connecting_peers s
          \<and> peers_in_queue t = peers_in_queue s
          \<and> queue_to_connect t = queue_to_connect s
          \<and> calls t = calls s"
    by (simp add: updatePeerStatus_def find_active_def modify_entry_map_of)
qed

text \<open>
  Peer 2, connecting and not active, sends a status: it leaves the connecting set and is
  active with that status at time 9. Peer 1, active since time 5, sends a status: its
  entry holds the status and the time 9.
\<close>

theorem updatePeerStatus_effect_witness:
  "queue_mirror state_active_1 \<and> find_active 2 state_active_1 = None
   \<and> find_active 1 state_active_1 \<noteq> None
   \<and> (\<exists>t. updatePeerStatus env_live 2 default_Status state_active_1 = Inr t
          \<and> connecting_peers t = {||}
          \<and> active_peers t = [(1, \<lparr>time = 5, status = default_Status\<rparr>),
                               (2, \<lparr>time = 9, status = default_Status\<rparr>)])
   \<and> (\<exists>t. updatePeerStatus env_live 1 (default_Status\<lparr>roles := 4\<rparr>) state_active_1 = Inr t
          \<and> find_active 1 t = Some \<lparr>time = 9, status = default_Status\<lparr>roles := 4\<rparr>\<rparr>
          \<and> connecting_peers t = {|2|})"
proof -
  have h1: "queue_mirror state_active_1 \<and> find_active 2 state_active_1 = None"
    by (simp add: queue_mirror_def find_active_def state_active_1_def)
  have h2: "find_active 1 state_active_1 \<noteq> None"
    by (simp add: find_active_def state_active_1_def)
  have e: "now env_live = 9" by (simp add: env_live_def)
  have s: "connecting_peers state_active_1 = {|2|}"
    "active_peers state_active_1 = [(1, \<lparr>time = 5, status = default_Status\<rparr>)]"
    by (simp_all add: state_active_1_def)
  from updatePeerStatus_effect [of state_active_1 2 env_live default_Status] h1
  have a: "\<exists>t. updatePeerStatus env_live 2 default_Status state_active_1 = Inr t
          \<and> connecting_peers t = {||}
          \<and> active_peers t = [(1, \<lparr>time = 5, status = default_Status\<rparr>),
                               (2, \<lparr>time = 9, status = default_Status\<rparr>)]"
    by (auto simp: e s)
  from updatePeerStatus_effect [of state_active_1 1 env_live "default_Status\<lparr>roles := 4\<rparr>"] h2
  have b: "\<exists>t. updatePeerStatus env_live 1 (default_Status\<lparr>roles := 4\<rparr>) state_active_1 = Inr t
          \<and> find_active 1 t = Some \<lparr>time = 9, status = default_Status\<lparr>roles := 4\<rparr>\<rparr>
          \<and> connecting_peers t = {|2|}"
    by (auto simp: e s)
  from h1 h2 a b show ?thesis by blast
qed

subsection \<open>C5: the result of prepare\<close>

text \<open>
  C5. \<open>prepare\<close> returns false exactly when the node is not in dev mode and has no
  bootstrap nodes. \<open>start\<close>, the other operation that returns a flag, never returns
  false. The remaining operations return no flag: nothing, a count, or the status looked
  up.
\<close>

theorem prepare_fails_iff:
  "(\<not> prepare cfg) = (\<not> isRunInDevMode cfg \<and> bootstrap_nodes cfg = [])
   \<and> map_sum id fst (start env cfg s) \<noteq> Inr False"
  by (auto simp: prepare_def start_def Let_def split: sum.splits)

theorem prepare_fails_iff_witness:
  "\<not> prepare cfg_limit_one \<and> prepare (cfg_limit_one\<lparr>isRunInDevMode := True\<rparr>)
   \<and> prepare (cfg_limit_one\<lparr>bootstrap_nodes := [\<lparr>peer_id = 5, addresses = [1]\<rparr>]\<rparr>)"
  using prepare_fails_iff [of cfg_limit_one]
    prepare_fails_iff [of "cfg_limit_one\<lparr>isRunInDevMode := True\<rparr>"]
    prepare_fails_iff [of "cfg_limit_one\<lparr>bootstrap_nodes := [\<lparr>peer_id = 5, addresses = [1]\<rparr>]\<rparr>"]
  by (simp add: cfg_limit_one_def)

subsection \<open>C6: an identified peer at the hard limit\<close>

text \<open>
  C6. Let \<open>p\<close> be another peer than the node itself, with addresses in the address
  repository, identified while the number of active peers is at least the hard limit.
  Then \<open>processFullyConnectedPeer\<close> removes \<open>p\<close> from the connecting set, tells Kademlia
  of the peer, and does nothing else: no stream is requested and the active peers and
  the queue stay.
\<close>

theorem processFullyConnectedPeer_at_hard_limit:
  assumes "own_peer_id cfg \<noteq> p" and "getAddresses env p = Some addrs"
    and "hardLimit cfg \<le> activePeersNumber s"
  shows "processFullyConnectedPeer env cfg p s =
           s\<lparr>connecting_peers := connecting_peers s |-| {|p|},
              calls := calls s @ [KademliaAddPeer \<lparr>peer_id = p, addresses = addrs\<rparr> False]\<rparr>"
  using assms by (simp add: processFullyConnectedPeer_def activePeersNumber_def log_call_def)

theorem processFullyConnectedPeer_at_hard_limit_witness:
  "own_peer_id cfg_limit_one \<noteq> 2 \<and> getAddresses env_live 2 = Some [1]
   \<and> hardLimit cfg_limit_one \<le> activePeersNumber state_active_1
   \<and> processFullyConnectedPeer env_live cfg_limit_one 2 state_active_1 =
       state_active_1\<lparr>connecting_peers := {||},
                       calls := [KademliaAddPeer \<lparr>peer_id = 2, addresses = [1]\<rparr> False]\<rparr>"
proof -
  have h1: "own_peer_id cfg_limit_one \<noteq> 2" by (simp add: cfg_limit_one_def)
  have h2: "getAddresses env_live 2 = Some [1]" by (simp add: env_live_def)
  have h3: "hardLimit cfg_limit_one \<le> activePeersNumber state_active_1"
    by (simp add: cfg_limit_one_def activePeersNumber_def state_active_1_def)
  from processFullyConnectedPeer_at_hard_limit [OF h1 h2 h3] h1 h2 h3 show ?thesis
    by (simp add: state_active_1_def)
qed

subsection \<open>C7: disconnecting a peer that is not active\<close>

text \<open>
  C7, as the code has it. For a peer \<open>p\<close> that is not active, \<open>disconnectFromPeer\<close> leaves
  the active peers, the connecting set and the queue as they are and does not call the
  stream engine; it calls \<open>remove\<close> for \<open>p\<close> on the registry of sync clients, which it does
  for every peer, active or not.
\<close>

theorem disconnectFromPeer_not_active:
  assumes "find_active p s = None"
  shows "disconnectFromPeer p s = s\<lparr>calls := calls s @ [SyncClientsRemove p]\<rparr>"
  using assms by (simp add: disconnectFromPeer_def log_call_def)

theorem disconnectFromPeer_not_active_witness:
  "find_active 2 state_active_1 = None
   \<and> disconnectFromPeer 2 state_active_1 = state_active_1\<lparr>calls := [SyncClientsRemove 2]\<rparr>"
proof -
  have h: "find_active 2 state_active_1 = None"
    by (simp add: find_active_def state_active_1_def)
  from disconnectFromPeer_not_active [OF h] h show ?thesis
    by (simp add: state_active_1_def)
qed

text \<open>
  C7 as stated fails. Peer 2 is not active, and disconnecting it reaches the registry of
  sync clients with a call to remove peer 2.
\<close>

theorem disconnect_unknown_peer_counterexample:
  "find_active 2 state_active_1 = None
   \<and> calls state_active_1 = []
   \<and> calls (disconnectFromPeer 2 state_active_1) = [SyncClientsRemove 2]"
  by (simp add: disconnectFromPeer_def log_call_def find_active_def state_active_1_def)

subsection \<open>C8: the queue and its set\<close>



subsection \<open>C9: dialling a peer without addresses\<close>

text \<open>
  C9. When the peer repository has no address for \<open>p\<close>, \<open>connectToPeer\<close> returns with the
  state as it was: no connection is requested, and \<open>p\<close> is in the connecting set after the
  call if it was before.
\<close>

theorem connectToPeer_no_addresses:
  assumes "getPeerInfo env p = []"
  shows "connectToPeer env p s = s"
  using assms by (simp add: connectToPeer_def)

theorem connectToPeer_no_addresses_witness:
  "getPeerInfo env_no_addresses 2 = []
   \<and> connectToPeer env_no_addresses 2 state_active_1 = state_active_1
   \<and> 2 |\<in>| connecting_peers (connectToPeer env_no_addresses 2 state_active_1)"
proof -
  have h: "getPeerInfo env_no_addresses 2 = []" by (simp add: env_no_addresses_def)
  from connectToPeer_no_addresses [OF h, of state_active_1] h show ?thesis
    by (simp add: state_active_1_def)
qed

subsection \<open>C10: a best block from a peer that is not active\<close>

text \<open>
  C10. For a peer \<open>p\<close> that is not active, \<open>updatePeerStatus\<close> with a best block only
  leaves the whole state as it was.
\<close>

theorem updatePeerStatus_best_block_not_active:
  assumes "find_active p s = None"
  shows "updatePeerStatus_best_block env p bb s = s"
  using assms by (simp add: updatePeerStatus_best_block_def)

theorem updatePeerStatus_best_block_not_active_witness:
  "find_active 2 state_active_1 = None
   \<and> updatePeerStatus_best_block env_live 2 (3, 4) state_active_1 = state_active_1"
proof -
  have h: "find_active 2 state_active_1 = None"
    by (simp add: find_active_def state_active_1_def)
  from updatePeerStatus_best_block_not_active [OF h] h show ?thesis by simp
qed

end
